theory Spec2Isabelle
  imports Complex_Main "HOL-Library.Sublist"
begin

section \<open>Values, errors and data frames\<close>

text \<open>
  The cells of the table are Python objects. The model keeps the kinds the program
  distinguishes: \<open>None\<close>, the float NaN (what pandas stores for a missing number and what
  it fills in when labels do not align), numbers (Python compares \<open>int\<close> and \<open>float\<close> by
  value, so one constructor carries both, as a rational), strings, lists (an inventory,
  a list of weapon classes) and dictionaries (an inventory item).

  A number is exact here, where pandas and shapely hold it as a 64-bit float once a row
  or a column mixes integers and floats. Every statement below whose truth depends on
  the value of a number therefore assumes the numbers involved to be integers small
  enough to be exact as such a float (\<open>exact_number\<close>, \<open>exact_coordinate\<close>).
\<close>

datatype val =
    VNone
  | VNaN
  | VNum rat
  | VStr string
  | VList "val list"
  | VDict "(string \<times> val) list"

text \<open>The exceptions the program can raise, as values.\<close>

datatype error = KeyError string | TypeError | ValueError

text \<open>
  A \<open>pd.DataFrame\<close>: the column names in order, and the rows in order, each row with its
  index label and its cells in column order. A frame read from a file has the labels
  \<open>0, 1, ..., n - 1\<close>; a frame obtained by boolean indexing keeps the labels of the rows
  it retains.
\<close>

type_synonym label = int

record dataframe =
  columns :: "string list"
  rows :: "(label \<times> val list) list"

text \<open>Sequencing of fallible steps: the first exception raised is the one propagated.\<close>

definition bind_error :: "error + 'a \<Rightarrow> ('a \<Rightarrow> error + 'b) \<Rightarrow> error + 'b" where
  "bind_error m f = (case m of Inl e \<Rightarrow> Inl e | Inr x \<Rightarrow> f x)"

fun map_error :: "('a \<Rightarrow> error + 'b) \<Rightarrow> 'a list \<Rightarrow> error + 'b list" where
  "map_error f [] = Inr []"
| "map_error f (x # xs) =
     (case f x of
        Inl e \<Rightarrow> Inl e
      | Inr y \<Rightarrow> (case map_error f xs of Inl e \<Rightarrow> Inl e | Inr ys \<Rightarrow> Inr (y # ys)))"

text \<open>Python's \<open>==\<close> and \<open>!=\<close> on cell values: NaN is equal to nothing, itself included.\<close>

definition py_eq :: "val \<Rightarrow> val \<Rightarrow> bool" where
  "py_eq a b = (a = b \<and> a \<noteq> VNaN)"

definition py_ne :: "val \<Rightarrow> val \<Rightarrow> bool" where
  "py_ne a b = (\<not> py_eq a b)"

subsection \<open>The pandas operations the program calls\<close>

text \<open>The cell of a row under a column name (a cell missing from a short row reads as NaN).\<close>

definition cell :: "string list \<Rightarrow> val list \<Rightarrow> string \<Rightarrow> val" where
  "cell cols r c = (case map_of (zip cols r) c of Some v \<Rightarrow> v | None \<Rightarrow> VNaN)"

text \<open>\<open>row[c]\<close> for a row produced by \<open>df.iterrows()\<close> or \<open>df.apply(..., axis=1)\<close>.\<close>

definition row_getitem :: "dataframe \<Rightarrow> val list \<Rightarrow> string \<Rightarrow> error + val" where
  "row_getitem df r c =
     (if c \<in> set (columns df) then Inr (cell (columns df) r c) else Inl (KeyError c))"

text \<open>\<open>df[c]\<close>: the values of a column, in row order.\<close>

definition getitem_column :: "dataframe \<Rightarrow> string \<Rightarrow> error + val list" where
  "getitem_column df c =
     (if c \<in> set (columns df) then Inr (map (\<lambda>(l, r). cell (columns df) r c) (rows df))
      else Inl (KeyError c))"

text \<open>\<open>df[mask]\<close> with a boolean mask computed from \<open>df\<close>: a new frame with the rows whose
  mask entry is true, labels and cells unchanged.\<close>

definition getitem_mask :: "dataframe \<Rightarrow> bool list \<Rightarrow> dataframe" where
  "getitem_mask df bs = df\<lparr>rows := map fst (filter snd (zip (rows df) bs))\<rparr>"

text \<open>\<open>series == value\<close> and \<open>series.isin(values)\<close>, elementwise.\<close>

definition series_eq :: "val list \<Rightarrow> val \<Rightarrow> bool list" where
  "series_eq s v = map (\<lambda>x. py_eq x v) s"

definition isin :: "val list \<Rightarrow> val list \<Rightarrow> bool list" where
  "isin s vs = map (\<lambda>x. x \<in> set vs) s"

section \<open>The categorical filters\<close>

definition filter_by_team :: "dataframe \<Rightarrow> string \<Rightarrow> error + dataframe" where
  "filter_by_team df team =
     bind_error (getitem_column df ''team'')
       (\<lambda>s. Inr (getitem_mask df (series_eq s (VStr team))))"

definition filter_by_side :: "dataframe \<Rightarrow> string \<Rightarrow> error + dataframe" where
  "filter_by_side df side =
     bind_error (getitem_column df ''side'')
       (\<lambda>s. Inr (getitem_mask df (series_eq s (VStr side))))"

definition filter_by_area_name :: "dataframe \<Rightarrow> string list \<Rightarrow> error + dataframe" where
  "filter_by_area_name df area_names =
     bind_error (getitem_column df ''area_name'')
       (\<lambda>s. Inr (getitem_mask df (isin s (map VStr area_names))))"

section \<open>Column pruning\<close>

text \<open>\<open>df.drop(columns=labels)\<close>: a label that is not a column raises \<open>KeyError\<close>; otherwise
  every column with one of the labels is removed, and the rows keep their other cells.\<close>

definition drop_columns :: "dataframe \<Rightarrow> string list \<Rightarrow> error + dataframe" where
  "drop_columns df labels =
     (case filter (\<lambda>c. c \<notin> set (columns df)) labels of
        m # _ \<Rightarrow> Inl (KeyError m)
      | [] \<Rightarrow> Inr \<lparr>columns = filter (\<lambda>c. c \<notin> set labels) (columns df),
                 rows = map (\<lambda>(l, r). (l, map snd (filter (\<lambda>(c, v). c \<notin> set labels)
                                                   (zip (columns df) r)))) (rows df)\<rparr>)"

text \<open>\<open>processed_df\<close> is a copy of \<open>df\<close>; \<open>irrelevant_columns\<close> is the set difference
  \<open>set(processed_df.columns) - set(columns)\<close>, kept as a duplicate-free list.\<close>

definition remove_unneeded_cols :: "dataframe \<Rightarrow> string list \<Rightarrow> error + dataframe" where
  "remove_unneeded_cols df cols =
     (let processed_df = df;
          irrelevant_columns = filter (\<lambda>c. c \<notin> set cols) (remdups (columns processed_df))
      in drop_columns processed_df irrelevant_columns)"

section \<open>The polygon filter\<close>

text \<open>
  \<open>Polygon\<close>, \<open>Point\<close> and \<open>contains\<close> come from the shapely library. Coordinates are
  modelled as rationals. \<open>Polygon(coords)\<close> gives the empty polygon for an empty
  sequence and raises \<open>ValueError\<close> for one or two coordinates; otherwise it closes the
  ring: the first coordinate is appended when the last differs from it, and always when
  there are exactly three coordinates, so that a ring has at least four. \<open>a.contains(b)\<close>
  holds when \<open>b\<close> has no point outside \<open>a\<close> and a point in the interior of \<open>a\<close>: for a
  point \<open>b\<close>, when it lies in the interior of the polygon, not on its boundary. The
  interior is decided by the crossing number of the ray from the point towards \<open>+x\<close>.
\<close>

type_synonym point = "rat \<times> rat"

definition Polygon :: "point list \<Rightarrow> error + point list" where
  "Polygon coords =
     (if coords = [] then Inr []
      else if length coords < 3 then Inl ValueError
      else if length coords = 3 \<or> hd coords \<noteq> last coords then Inr (coords @ [hd coords])
      else Inr coords)"

definition ring_edges :: "point list \<Rightarrow> (point \<times> point) list" where
  "ring_edges ring = zip ring (tl ring)"

definition on_segment :: "point \<Rightarrow> point \<Rightarrow> point \<Rightarrow> bool" where
  "on_segment p a b =
     ((fst b - fst a) * (snd p - snd a) = (snd b - snd a) * (fst p - fst a)
      \<and> min (fst a) (fst b) \<le> fst p \<and> fst p \<le> max (fst a) (fst b)
      \<and> min (snd a) (snd b) \<le> snd p \<and> snd p \<le> max (snd a) (snd b))"

definition ray_crosses :: "point \<Rightarrow> point \<Rightarrow> point \<Rightarrow> bool" where
  "ray_crosses p a b =
     ((snd p < snd a) \<noteq> (snd p < snd b)
      \<and> (if snd a < snd b
         then (fst p - fst a) * (snd b - snd a) < (snd p - snd a) * (fst b - fst a)
         else (fst p - fst a) * (snd b - snd a) > (snd p - snd a) * (fst b - fst a)))"

definition on_boundary :: "point list \<Rightarrow> point \<Rightarrow> bool" where
  "on_boundary ring p = list_ex (\<lambda>(a, b). on_segment p a b) (ring_edges ring)"

definition in_interior :: "point list \<Rightarrow> point \<Rightarrow> bool" where
  "in_interior ring p =
     (\<not> on_boundary ring p
      \<and> odd (length (filter (\<lambda>(a, b). ray_crosses p a b) (ring_edges ring))))"

text \<open>\<open>Point(x, y)\<close>: a NaN coordinate gives a point that nothing contains (\<open>None\<close> here).
  A cell that is not a number is converted with \<open>float\<close>: a string that does not spell a
  number (the strings of the model are names) raises \<open>ValueError\<close>, as does a list, which
  is not a scalar; \<open>None\<close> and a dictionary raise \<open>TypeError\<close>.\<close>

fun coordinate :: "val \<Rightarrow> error + rat option" where
  "coordinate (VNum a) = Inr (Some a)"
| "coordinate VNaN = Inr None"
| "coordinate (VStr s) = Inl ValueError"
| "coordinate (VList xs) = Inl ValueError"
| "coordinate _ = Inl TypeError"

definition Point :: "val \<Rightarrow> val \<Rightarrow> error + point option" where
  "Point x y =
     bind_error (coordinate x) (\<lambda>a. bind_error (coordinate y) (\<lambda>b.
       Inr (case (a, b) of (Some u, Some v) \<Rightarrow> Some (u, v) | _ \<Rightarrow> None)))"

definition contains :: "point list \<Rightarrow> point option \<Rightarrow> bool" where
  "contains polygon pt = (case pt of None \<Rightarrow> False | Some p \<Rightarrow> in_interior polygon p)"

text \<open>\<open>series.between(left, right)\<close> is \<open>(series >= left) & (series <= right)\<close>: false on
  a missing value (NaN or \<open>None\<close>), \<open>TypeError\<close> on a cell that cannot be compared with a
  number.\<close>

fun between_cell :: "rat \<Rightarrow> rat \<Rightarrow> val \<Rightarrow> error + bool" where
  "between_cell lo hi (VNum z) = Inr (lo \<le> z \<and> z \<le> hi)"
| "between_cell lo hi VNaN = Inr False"
| "between_cell lo hi VNone = Inr False"
| "between_cell lo hi _ = Inl TypeError"

definition series_between :: "val list \<Rightarrow> rat \<Rightarrow> rat \<Rightarrow> error + bool list" where
  "series_between s lo hi = map_error (between_cell lo hi) s"

text \<open>The function passed to \<open>df.apply(..., axis=1)\<close>. It runs once for each row, so a
  frame without rows looks up no \<open>x\<close> or \<open>y\<close> and gives the empty mask.\<close>

definition row_in_polygon :: "dataframe \<Rightarrow> point list \<Rightarrow> val list \<Rightarrow> error + bool" where
  "row_in_polygon df polygon row =
     bind_error (row_getitem df row ''x'') (\<lambda>x.
     bind_error (row_getitem df row ''y'') (\<lambda>y.
     bind_error (Point x y) (\<lambda>p. Inr (contains polygon p))))"

definition filter_by_polygon ::
  "dataframe \<Rightarrow> point list \<Rightarrow> rat \<times> rat \<Rightarrow> error + dataframe" where
  "filter_by_polygon df polygon_coordinates z_bound =
     bind_error (Polygon polygon_coordinates) (\<lambda>polygon.
     bind_error (getitem_column df ''z'') (\<lambda>zs.
     bind_error (series_between zs (fst z_bound) (snd z_bound)) (\<lambda>in_z.
     bind_error (map_error (\<lambda>(l, row). row_in_polygon df polygon row) (rows df)) (\<lambda>in_poly.
       Inr (getitem_mask df (map (\<lambda>(a, b). a \<and> b) (zip in_z in_poly)))))))"

section \<open>Weapon classes\<close>

text \<open>\<open>item[key]\<close>: a dictionary without the key raises \<open>KeyError\<close>; a value that is not a
  dictionary cannot be indexed by a string.\<close>

fun item_getitem :: "val \<Rightarrow> string \<Rightarrow> error + val" where
  "item_getitem (VDict d) k = (case map_of d k of Some v \<Rightarrow> Inr v | None \<Rightarrow> Inl (KeyError k))"
| "item_getitem _ k = Inl TypeError"

text \<open>What \<open>for item in inventory\<close> ranges over: the elements of a list, the characters
  of a string, the keys of a dictionary; a number (NaN included) is not iterable.\<close>

fun iterate :: "val \<Rightarrow> error + val list" where
  "iterate (VList xs) = Inr xs"
| "iterate (VStr s) = Inr (map (\<lambda>c. VStr [c]) s)"
| "iterate (VDict d) = Inr (map (\<lambda>(k, v). VStr k) d)"
| "iterate _ = Inl TypeError"

text \<open>\<open>[item['weapon_class'] for item in inventory]\<close>\<close>

definition weapon_class_list :: "val \<Rightarrow> error + val list" where
  "weapon_class_list inventory =
     bind_error (iterate inventory) (map_error (\<lambda>item. item_getitem item ''weapon_class''))"

text \<open>The loop over \<open>df.iterrows()\<close>, with the list \<open>weapon_classes\<close> as accumulator.\<close>

fun weapon_classes_loop ::
  "dataframe \<Rightarrow> (label \<times> val list) list \<Rightarrow> val list \<Rightarrow> error + val list" where
  "weapon_classes_loop df [] weapon_classes = Inr weapon_classes"
| "weapon_classes_loop df ((l, row) # rest) weapon_classes =
     (case row_getitem df row ''inventory'' of
        Inl e \<Rightarrow> Inl e
      | Inr inventory \<Rightarrow>
          (if inventory = VNone then weapon_classes_loop df rest (weapon_classes @ [VList []])
           else (case weapon_class_list inventory of
                   Inl e \<Rightarrow> Inl e
                 | Inr wcs \<Rightarrow> weapon_classes_loop df rest (weapon_classes @ [VList wcs]))))"

text \<open>
  \<open>df[c] = pd.Series(values)\<close>. The series carries the labels \<open>0, 1, ..., len(values) - 1\<close>,
  and pandas aligns it with the frame by label: the row labelled \<open>l\<close> receives the entry
  of the series labelled \<open>l\<close>, and NaN when the series has no such label. The column is
  replaced when it exists and appended otherwise.
\<close>

definition series_reindex :: "val list \<Rightarrow> label list \<Rightarrow> val list" where
  "series_reindex s labels =
     map (\<lambda>l. if 0 \<le> l \<and> nat l < length s then s ! nat l else VNaN) labels"

definition setitem :: "dataframe \<Rightarrow> string \<Rightarrow> val list \<Rightarrow> dataframe" where
  "setitem df c s =
     (let vs = series_reindex s (map fst (rows df));
          i = length (takeWhile (\<lambda>x. x \<noteq> c) (columns df))
      in \<lparr>columns = (if c \<in> set (columns df) then columns df else columns df @ [c]),
          rows = map (\<lambda>((l, r), v). (l, if c \<in> set (columns df) then r[i := v] else r @ [v]))
                     (zip (rows df) vs)\<rparr>)"

definition extract_weapon_classes :: "dataframe \<Rightarrow> error + dataframe" where
  "extract_weapon_classes df =
     (let new_df = df
      in bind_error (weapon_classes_loop df (rows df) [])
           (\<lambda>weapon_classes. Inr (setitem new_df ''weapon_classes'' weapon_classes)))"

section \<open>First row of each round\<close>

text \<open>The loop over \<open>df.iterrows()\<close>, with \<open>current_round\<close> and the list
  \<open>first_round_rows\<close> as state. \<open>iterrows\<close> hands each row over as one series, which
  turns the integers of a row of numbers into floats; the loop is modelled on the exact
  cells, and the statement that depends on the comparison of round numbers assumes them
  exact as floats.\<close>

fun first_round_rows_loop ::
  "dataframe \<Rightarrow> (label \<times> val list) list \<Rightarrow> val \<Rightarrow> (label \<times> val list) list
     \<Rightarrow> error + (label \<times> val list) list" where
  "first_round_rows_loop df [] current_round first_round_rows = Inr first_round_rows"
| "first_round_rows_loop df ((l, row) # rest) current_round first_round_rows =
     (case row_getitem df row ''round_num'' of
        Inl e \<Rightarrow> Inl e
      | Inr round_number \<Rightarrow>
          (if py_ne round_number current_round
           then first_round_rows_loop df rest round_number (first_round_rows @ [(l, row)])
           else first_round_rows_loop df rest current_round first_round_rows))"

text \<open>\<open>pd.DataFrame(list_of_rows)\<close>: the rows keep their labels and cells; the columns are
  those of the rows, and an empty list gives a frame without columns.\<close>

definition DataFrame :: "string list \<Rightarrow> (label \<times> val list) list \<Rightarrow> dataframe" where
  "DataFrame cols rs = \<lparr>columns = (if rs = [] then [] else cols), rows = rs\<rparr>"

definition get_first_row_of_each_round :: "dataframe \<Rightarrow> error + dataframe" where
  "get_first_row_of_each_round df =
     bind_error (first_round_rows_loop df (rows df) VNone [])
       (\<lambda>first_round_rows. Inr (DataFrame (columns df) first_round_rows))"

text \<open>Inventories as the schema has them: null, or a list of item records.\<close>

fun is_item_list :: "val \<Rightarrow> bool" where
  "is_item_list VNone = True"
| "is_item_list (VList items) = list_all (\<lambda>item. case item of VDict d \<Rightarrow> True | _ \<Rightarrow> False) items"
| "is_item_list _ = False"

text \<open>A coordinate cell as the schema has it: a number, or NaN for a missing one.\<close>

fun is_number :: "val \<Rightarrow> bool" where
  "is_number (VNum a) = True"
| "is_number VNaN = True"
| "is_number _ = False"

text \<open>
  Numbers on which the exact model and 64-bit floats agree. An integer of magnitude at
  most \<open>2^53\<close> is exact as a float, so comparisons of such numbers are exact. The
  containment test forms differences and products of coordinates: with integer
  coordinates of magnitude at most \<open>2^25\<close> all of them are integers below \<open>2^53\<close>, exact
  in whatever order they are computed.
\<close>

definition exact_number :: "rat \<Rightarrow> bool" where
  "exact_number q = (of_int \<lfloor>q\<rfloor> = q \<and> \<bar>q\<bar> \<le> 2 ^ 53)"

definition exact_coordinate :: "rat \<Rightarrow> bool" where
  "exact_coordinate q = (of_int \<lfloor>q\<rfloor> = q \<and> \<bar>q\<bar> \<le> 2 ^ 25)"

fun is_exact_number :: "val \<Rightarrow> bool" where
  "is_exact_number (VNum q) = exact_number q"
| "is_exact_number _ = False"

fun is_exact_coordinate :: "val \<Rightarrow> bool" where
  "is_exact_coordinate (VNum q) = exact_coordinate q"
| "is_exact_coordinate _ = False"

text \<open>A table whose \<open>x\<close>, \<open>y\<close> and \<open>z\<close> columns exist and hold such numbers in every row.\<close>

definition exact_positions :: "dataframe \<Rightarrow> bool" where
  "exact_positions df =
     (''x'' \<in> set (columns df) \<and> ''y'' \<in> set (columns df) \<and> ''z'' \<in> set (columns df)
      \<and> list_all (\<lambda>(l, row). is_exact_coordinate (cell (columns df) row ''x'')
                           \<and> is_exact_coordinate (cell (columns df) row ''y'')
                           \<and> is_exact_number (cell (columns df) row ''z'')) (rows df))"

text \<open>The rows \<open>filter_by_polygon\<close> retains: both masks are true.\<close>

definition row_kept :: "dataframe \<Rightarrow> point list \<Rightarrow> rat \<times> rat \<Rightarrow> label \<times> val list \<Rightarrow> bool" where
  "row_kept df polygon z_bound x =
     (between_cell (fst z_bound) (snd z_bound) (cell (columns df) (snd x) ''z'') = Inr True
      \<and> row_in_polygon df polygon (snd x) = Inr True)"

text \<open>The column \<open>weapon_classes\<close> of a result, row by row with the row's label.\<close>

definition weapon_classes_column :: "error + dataframe \<Rightarrow> error + (label \<times> val) list" where
  "weapon_classes_column res =
     (case res of Inl e \<Rightarrow> Inl e
      | Inr t \<Rightarrow> Inr (map (\<lambda>(l, r). (l, cell (columns t) r ''weapon_classes'')) (rows t)))"

text \<open>What the body of the loop of \<open>extract_weapon_classes\<close> appends for a row: the
  empty list for a null inventory, otherwise the list of the items' \<open>weapon_class\<close>.\<close>

definition row_weapon_classes :: "dataframe \<Rightarrow> label \<times> val list \<Rightarrow> val \<Rightarrow> bool" where
  "row_weapon_classes df x v =
     (case row_getitem df (snd x) ''inventory'' of
        Inl e \<Rightarrow> False
      | Inr inventory \<Rightarrow>
          (if inventory = VNone then v = VList []
           else (case weapon_class_list inventory of Inl e \<Rightarrow> False | Inr ws \<Rightarrow> v = VList ws)))"

section \<open>Objects: which frame each method creates and which it writes\<close>

text \<open>
  The store holds the data frames that exist; a reference is a position in it. Every
  method receives a reference \<open>df\<close> and returns the store after the call with the
  reference of the frame it returns, or the exception. \<open>df.copy()\<close>, boolean indexing
  and \<open>pd.DataFrame(...)\<close> create a frame; \<open>drop(..., inplace=True)\<close> and the column
  assignment write to the frame they are called on.
\<close>

type_synonym ref = nat
type_synonym store = "dataframe list"

definition new_object :: "store \<Rightarrow> dataframe \<Rightarrow> store \<times> ref" where
  "new_object h d = (h @ [d], length h)"

definition return_new :: "store \<Rightarrow> error + dataframe \<Rightarrow> store \<times> (error + ref)" where
  "return_new h res =
     (case res of Inl e \<Rightarrow> (h, Inl e)
      | Inr d \<Rightarrow> (let (h1, r) = new_object h d in (h1, Inr r)))"

definition remove_unneeded_cols_store ::
  "store \<Rightarrow> ref \<Rightarrow> string list \<Rightarrow> store \<times> (error + ref)" where
  "remove_unneeded_cols_store h df cols =
     (let (h1, processed_df) = new_object h (h ! df);
          irrelevant_columns =
            filter (\<lambda>c. c \<notin> set cols) (remdups (columns (h1 ! processed_df)))
      in case drop_columns (h1 ! processed_df) irrelevant_columns of
           Inl e \<Rightarrow> (h1, Inl e)
         | Inr d \<Rightarrow> (h1[processed_df := d], Inr processed_df))"

definition filter_by_team_store :: "store \<Rightarrow> ref \<Rightarrow> string \<Rightarrow> store \<times> (error + ref)" where
  "filter_by_team_store h df team = return_new h (filter_by_team (h ! df) team)"

definition filter_by_side_store :: "store \<Rightarrow> ref \<Rightarrow> string \<Rightarrow> store \<times> (error + ref)" where
  "filter_by_side_store h df side = return_new h (filter_by_side (h ! df) side)"

definition filter_by_area_name_store ::
  "store \<Rightarrow> ref \<Rightarrow> string list \<Rightarrow> store \<times> (error + ref)" where
  "filter_by_area_name_store h df area_names =
     return_new h (filter_by_area_name (h ! df) area_names)"

definition filter_by_polygon_store ::
  "store \<Rightarrow> ref \<Rightarrow> point list \<Rightarrow> rat \<times> rat \<Rightarrow> store \<times> (error + ref)" where
  "filter_by_polygon_store h df polygon_coordinates z_bound =
     return_new h (filter_by_polygon (h ! df) polygon_coordinates z_bound)"

definition extract_weapon_classes_store :: "store \<Rightarrow> ref \<Rightarrow> store \<times> (error + ref)" where
  "extract_weapon_classes_store h df =
     (let (h1, new_df) = new_object h (h ! df)
      in case weapon_classes_loop (h1 ! df) (rows (h1 ! df)) [] of
           Inl e \<Rightarrow> (h1, Inl e)
         | Inr weapon_classes \<Rightarrow>
             (h1[new_df := setitem (h1 ! new_df) ''weapon_classes'' weapon_classes],
              Inr new_df))"

definition get_first_row_of_each_round_store ::
  "store \<Rightarrow> ref \<Rightarrow> store \<times> (error + ref)" where
  "get_first_row_of_each_round_store h df =
     return_new h (get_first_row_of_each_round (h ! df))"

text \<open>The frame a method returns in the store is the one the method computes.\<close>

definition returns :: "store \<Rightarrow> store \<times> (error + ref) \<Rightarrow> error + dataframe \<Rightarrow> bool" where
  "returns h res v =
     (case v of Inl e \<Rightarrow> snd res = Inl e
      | Inr t \<Rightarrow> snd res = Inr (length h) \<and> length h < length (fst res) \<and> fst res ! length h = t)"

section \<open>A sample table\<close>

text \<open>
  Five rows as read from a file (labels \<open>0..4\<close>), with the round numbers
  \<open>1, 1, 2, 2, 1\<close>; the square is the polygon \<open>[(0,0), (0,2), (2,2), (2,0)]\<close>. Row 0 lies
  inside the square, row 1 on its left edge, row 2 outside, row 3 inside but above the
  bound \<open>[0, 10]\<close> on \<open>z\<close>, row 4 inside.
\<close>

definition sample_columns :: "string list" where
  "sample_columns =
     [''team'', ''side'', ''area_name'', ''x'', ''y'', ''z'', ''round_num'', ''inventory'']"

definition sample_rows :: "(label \<times> val list) list" where
  "sample_rows =
     [(0, [VStr ''A'', VStr ''T'', VStr ''BombsiteB'', VNum 1, VNum 1, VNum 5, VNum 1,
           VList [VDict [(''weapon_class'', VStr ''Rifle'')],
                  VDict [(''weapon_class'', VStr ''Pistols'')]]]),
      (1, [VStr ''A'', VStr ''T'', VStr ''BombsiteB'', VNum 0, VNum 1, VNum 5, VNum 1, VNone]),
      (2, [VStr ''B'', VStr ''CT'', VStr ''Mid'', VNum 5, VNum 5, VNum 5, VNum 2,
           VList [VDict [(''weapon_class'', VStr ''SMG'')]]]),
      (3, [VStr ''A'', VStr ''CT'', VStr ''Mid'', VNum 1, VNum 1, VNum 20, VNum 2, VList []]),
      (4, [VStr ''B'', VStr ''T'', VStr ''BombsiteA'', VNum 1, VNum 1, VNum 5, VNum 1,
           VList [VDict [(''weapon_class'', VStr ''Grenade'')]]])]"

definition sample_table :: dataframe where
  "sample_table = \<lparr>columns = sample_columns, rows = sample_rows\<rparr>"

definition square :: "point list" where
  "square = [(0, 0), (0, 2), (2, 2), (2, 0)]"

text \<open>A table in which the second item of the row labelled 1 has no \<open>weapon_class\<close>.\<close>

definition incomplete_table :: dataframe where
  "incomplete_table =
     \<lparr>columns = [''team'', ''inventory''],
      rows = [(0, [VStr ''A'', VList [VDict [(''weapon_class'', VStr ''Rifle'')]]]),
              (1, [VStr ''B'', VList [VDict [(''weapon_class'', VStr ''SMG'')],
                                      VDict [(''ammo'', VNum 30)]]]),
              (2, [VStr ''A'', VNone])]\<rparr>"

section \<open>Basic facts\<close>

lemma mask_filter:
  "map fst (filter snd (zip xs (map P xs))) = filter P xs"
  by (induction xs) auto

lemma getitem_mask_columns [simp]: "columns (getitem_mask df m) = columns df"
  by (simp add: getitem_mask_def)

lemmas sample_defs = sample_table_def sample_columns_def sample_rows_def square_def

lemma subseq_mask: "subseq (map fst (filter snd (zip xs bs))) xs"
proof (induction xs arbitrary: bs)
  case Nil
  show ?case by simp
next
  case (Cons x xs)
  show ?case
  proof (cases bs)
    case Nil
    then show ?thesis by simp
  next
    case (Cons b bs')
    with Cons.IH [of bs'] show ?thesis by (cases b) auto
  qed
qed

lemma getitem_mask_map:
  "getitem_mask df (map P (rows df)) = df\<lparr>rows := filter P (rows df)\<rparr>"
  by (simp add: getitem_mask_def mask_filter)

lemma filter_by_team_eq:
  "filter_by_team df team =
     (if ''team'' \<in> set (columns df)
      then Inr (df\<lparr>rows := filter (\<lambda>(l, r). py_eq (cell (columns df) r ''team'') (VStr team)) (rows df)\<rparr>)
      else Inl (KeyError ''team''))"
  by (simp add: filter_by_team_def getitem_column_def bind_error_def series_eq_def
      getitem_mask_map case_prod_unfold o_def)

lemma filter_by_side_eq:
  "filter_by_side df side =
     (if ''side'' \<in> set (columns df)
      then Inr (df\<lparr>rows := filter (\<lambda>(l, r). py_eq (cell (columns df) r ''side'') (VStr side)) (rows df)\<rparr>)
      else Inl (KeyError ''side''))"
  by (simp add: filter_by_side_def getitem_column_def bind_error_def series_eq_def
      getitem_mask_map case_prod_unfold o_def)

lemma filter_by_area_name_eq:
  "filter_by_area_name df area_names =
     (if ''area_name'' \<in> set (columns df)
      then Inr (df\<lparr>rows := filter (\<lambda>(l, r). cell (columns df) r ''area_name'' \<in> VStr ` set area_names) (rows df)\<rparr>)
      else Inl (KeyError ''area_name''))"
  by (simp add: filter_by_area_name_def getitem_column_def bind_error_def isin_def
      getitem_mask_map case_prod_unfold o_def)

lemma filter_by_polygon_mask:
  assumes "filter_by_polygon df pc zb = Inr t"
  shows "\<exists>bs. t = getitem_mask df bs"
  using assms by (auto simp: filter_by_polygon_def bind_error_def split: sum.splits)

lemma getitem_mask_subseq:
  "subseq (rows (getitem_mask df bs)) (rows df)"
  by (simp add: getitem_mask_def subseq_mask)

section \<open>Idempotence of the categorical filters\<close>

text \<open>
  Claim C8. Each categorical filter is idempotent: filtering the result of
  \<open>filter_by_team\<close> again with the same team gives the same table, and an exception of
  the first call is the outcome of the composition; likewise for \<open>filter_by_side\<close> and
  \<open>filter_by_area_name\<close>.
\<close>

theorem categorical_filters_idempotent:
  "bind_error (filter_by_team df team) (\<lambda>t. filter_by_team t team) = filter_by_team df team
   \<and> bind_error (filter_by_side df side) (\<lambda>t. filter_by_side t side) = filter_by_side df side
   \<and> bind_error (filter_by_area_name df area_names) (\<lambda>t. filter_by_area_name t area_names)
       = filter_by_area_name df area_names"
  by (simp add: filter_by_team_eq filter_by_side_eq filter_by_area_name_eq bind_error_def)

theorem categorical_filters_idempotent_witness:
  "bind_error (filter_by_team sample_table ''A'') (\<lambda>t. filter_by_team t ''A'')
     = Inr (sample_table\<lparr>rows := [sample_rows ! 0, sample_rows ! 1, sample_rows ! 3]\<rparr>)
   \<and> bind_error (filter_by_side sample_table ''CT'') (\<lambda>t. filter_by_side t ''CT'')
     = Inr (sample_table\<lparr>rows := [sample_rows ! 2, sample_rows ! 3]\<rparr>)
   \<and> bind_error (filter_by_area_name sample_table [''Mid'', ''BombsiteA''])
        (\<lambda>t. filter_by_area_name t [''Mid'', ''BombsiteA''])
     = Inr (sample_table\<lparr>rows := [sample_rows ! 2, sample_rows ! 3, sample_rows ! 4]\<rparr>)"
proof -
  have a: "filter_by_team sample_table ''A''
      = Inr (sample_table\<lparr>rows := [sample_rows ! 0, sample_rows ! 1, sample_rows ! 3]\<rparr>)"
    by (simp add: sample_defs filter_by_team_def getitem_column_def bind_error_def
        series_eq_def getitem_mask_def cell_def py_eq_def)
  have b: "filter_by_side sample_table ''CT''
      = Inr (sample_table\<lparr>rows := [sample_rows ! 2, sample_rows ! 3]\<rparr>)"
    by (simp add: sample_defs filter_by_side_def getitem_column_def bind_error_def
        series_eq_def getitem_mask_def cell_def py_eq_def)
  have c: "filter_by_area_name sample_table [''Mid'', ''BombsiteA'']
      = Inr (sample_table\<lparr>rows := [sample_rows ! 2, sample_rows ! 3, sample_rows ! 4]\<rparr>)"
    by (simp add: sample_defs filter_by_area_name_def getitem_column_def bind_error_def
        isin_def getitem_mask_def cell_def)
  show ?thesis
    using categorical_filters_idempotent
      [of sample_table "''A''" "''CT''" "[''Mid'', ''BombsiteA'']"]
    by (simp only: a b c)
qed

section \<open>Filters retain a subsequence of the rows\<close>

text \<open>
  Claim C9. For each of the four filters, the rows of the result form a subsequence of
  the rows of the input: the retained rows keep their relative order, so the result has
  at most as many rows as the input; the columns are those of the input.
\<close>

theorem filters_retain_subsequence:
  assumes "filter_by_team df team = Inr t \<or> filter_by_side df side = Inr t
           \<or> filter_by_area_name df area_names = Inr t
           \<or> filter_by_polygon df polygon_coordinates z_bound = Inr t"
  shows "subseq (rows t) (rows df) \<and> length (rows t) \<le> length (rows df)
         \<and> columns t = columns df"
proof -
  have "\<exists>bs. t = getitem_mask df bs"
    using assms filter_by_polygon_mask [of df polygon_coordinates z_bound t]
    by (auto simp: filter_by_team_def filter_by_side_def filter_by_area_name_def
        bind_error_def split: sum.splits)
  then obtain bs where t: "t = getitem_mask df bs" ..
  have "subseq (rows t) (rows df)"
    unfolding t by (rule getitem_mask_subseq)
  moreover from this have "length (rows t) \<le> length (rows df)"
    by (rule list_emb_length)
  ultimately show ?thesis
    by (simp add: t)
qed

theorem filters_retain_subsequence_witness:
  "filter_by_polygon sample_table square (0, 10)
     = Inr (sample_table\<lparr>rows := [sample_rows ! 0, sample_rows ! 4]\<rparr>)
   \<and> subseq [sample_rows ! 0, sample_rows ! 4] sample_rows"
proof -
  have a: "filter_by_polygon sample_table square (0, 10)
      = Inr (sample_table\<lparr>rows := [sample_rows ! 0, sample_rows ! 4]\<rparr>)"
    by (simp add: sample_defs filter_by_polygon_def Polygon_def getitem_column_def
        bind_error_def series_between_def getitem_mask_def cell_def row_in_polygon_def
        row_getitem_def Point_def contains_def in_interior_def on_boundary_def
        ring_edges_def on_segment_def ray_crosses_def)
  have b: "rows sample_table = sample_rows"
    by (simp add: sample_table_def)
  show ?thesis
    using filters_retain_subsequence [of sample_table "''A''"
        "sample_table\<lparr>rows := [sample_rows ! 0, sample_rows ! 4]\<rparr>" "''T''" "[]" square "(0, 10)"] a
    by (simp add: b)
qed

section \<open>Column pruning retains the named columns\<close>

lemma irrelevant_columns_present:
  "filter (\<lambda>c. c \<notin> set cols) (filter (\<lambda>c. c \<notin> set keep) (remdups cols)) = []"
  by (simp add: filter_empty_conv)

lemma kept_columns:
  "filter (\<lambda>c. c \<notin> set (filter (\<lambda>c. c \<notin> set keep) (remdups cols))) cols
     = filter (\<lambda>c. c \<in> set keep) cols"
  by (rule filter_cong) auto

lemma kept_cells:
  "filter (\<lambda>(c, v). c \<notin> set (filter (\<lambda>c. c \<notin> set keep) (remdups cols))) (zip cols r)
     = filter (\<lambda>(c, v). c \<in> set keep) (zip cols r)"
  by (rule filter_cong) (auto dest: set_zip_leftD)

lemma remove_unneeded_cols_eq:
  "remove_unneeded_cols df keep =
     Inr \<lparr>columns = filter (\<lambda>c. c \<in> set keep) (columns df),
          rows = map (\<lambda>(l, r). (l, map snd (filter (\<lambda>(c, v). c \<in> set keep)
                                            (zip (columns df) r)))) (rows df)\<rparr>"
  by (simp only: remove_unneeded_cols_def Let_def drop_columns_def
      irrelevant_columns_present kept_columns kept_cells list.case)

lemma zip_filter_cells:
  "zip (filter P cols) (map snd (filter (\<lambda>(c, v). P c) (zip cols r)))
     = filter (\<lambda>(c, v). P c) (zip cols r)"
proof (induction cols arbitrary: r)
  case Nil
  show ?case by simp
next
  case (Cons c cols)
  then show ?case by (cases r) auto
qed

lemma map_of_filter_key:
  "map_of (filter (\<lambda>(c, v). P c) xs) k = (if P k then map_of xs k else None)"
  by (induction xs) auto

lemma cell_kept:
  "P c \<Longrightarrow> cell (filter P cols) (map snd (filter (\<lambda>(c, v). P c) (zip cols r))) c = cell cols r c"
  by (simp add: cell_def zip_filter_cells map_of_filter_key)

text \<open>
  Claim C7. \<open>remove_unneeded_cols\<close> never raises, whatever names \<open>keep\<close> holds (a name
  that is not a column is ignored). The result has exactly the columns of the table
  whose names are in \<open>keep\<close>, in the table's order, hence none that the table lacks;
  it has the same number of rows with the same labels in the same order, and every
  retained cell has its value in the original.
\<close>

theorem remove_unneeded_cols_retains_named_columns:
  "\<exists>t. remove_unneeded_cols df keep = Inr t
       \<and> columns t = filter (\<lambda>c. c \<in> set keep) (columns df)
       \<and> set (columns t) = set (columns df) \<inter> set keep
       \<and> length (rows t) = length (rows df)
       \<and> map fst (rows t) = map fst (rows df)
       \<and> (\<forall>i c. i < length (rows df) \<and> c \<in> set keep \<longrightarrow>
             cell (columns t) (snd (rows t ! i)) c = cell (columns df) (snd (rows df ! i)) c)"
proof -
  let ?t = "\<lparr>columns = filter (\<lambda>c. c \<in> set keep) (columns df),
          rows = map (\<lambda>(l, r). (l, map snd (filter (\<lambda>(c, v). c \<in> set keep)
                                            (zip (columns df) r)))) (rows df)\<rparr>"
  have "remove_unneeded_cols df keep = Inr ?t"
    by (rule remove_unneeded_cols_eq)
  moreover have "set (columns ?t) = set (columns df) \<inter> set keep"
    by auto
  moreover have "map fst (rows ?t) = map fst (rows df)"
    by (simp add: case_prod_unfold o_def)
  moreover have "cell (columns ?t) (snd (rows ?t ! i)) c = cell (columns df) (snd (rows df ! i)) c"
    if "i < length (rows df)" "c \<in> set keep" for i c
    using that cell_kept [of "\<lambda>c. c \<in> set keep" c]
    by (simp add: case_prod_unfold)
  ultimately show ?thesis
    by simp
qed

theorem remove_unneeded_cols_retains_named_columns_witness:
  "\<exists>t. remove_unneeded_cols sample_table [''z'', ''team'', ''elevation''] = Inr t
       \<and> columns t = [''team'', ''z''] \<and> map fst (rows t) = [0, 1, 2, 3, 4]
       \<and> cell (columns t) (snd (rows t ! 3)) ''z'' = VNum 20"
proof -
  obtain t where t: "remove_unneeded_cols sample_table [''z'', ''team'', ''elevation''] = Inr t"
    and c: "columns t = filter (\<lambda>c. c \<in> set [''z'', ''team'', ''elevation''])
                          (columns sample_table)"
    and l: "map fst (rows t) = map fst (rows sample_table)"
    and v: "\<forall>i c. i < length (rows sample_table) \<and> c \<in> set [''z'', ''team'', ''elevation'']
             \<longrightarrow> cell (columns t) (snd (rows t ! i)) c
                 = cell (columns sample_table) (snd (rows sample_table ! i)) c"
    using remove_unneeded_cols_retains_named_columns
      [of sample_table "[''z'', ''team'', ''elevation'']"] by blast
  have c': "columns t = [''team'', ''z'']"
    using c by (simp add: sample_defs)
  have l': "map fst (rows t) = [0, 1, 2, 3, 4]"
    using l by (simp add: sample_defs)
  have "cell (columns sample_table) (snd (rows sample_table ! 3)) ''z'' = VNum 20"
    by (simp add: sample_defs cell_def)
  with v [rule_format, of 3 "''z''"]
  have v': "cell (columns t) (snd (rows t ! 3)) ''z'' = VNum 20"
    by (simp add: sample_defs)
  from t c' l' v' show ?thesis
    by - (rule exI [of _ t], intro conjI, assumption+)
qed

section \<open>No operation writes to its input\<close>

lemma return_new_frame:
  assumes "df < length h"
  shows "fst (return_new h res) ! df = h ! df
         \<and> (\<forall>r. snd (return_new h res) = Inr r \<longrightarrow> r = length h \<and> r < length (fst (return_new h res)))"
  using assms by (auto simp: return_new_def new_object_def nth_append split: sum.splits)

lemma remove_unneeded_cols_store_frame:
  assumes "df < length h"
  shows "fst (remove_unneeded_cols_store h df cols) ! df = h ! df
         \<and> (\<forall>r. snd (remove_unneeded_cols_store h df cols) = Inr r \<longrightarrow>
               r = length h \<and> r < length (fst (remove_unneeded_cols_store h df cols)))"
  using assms
  by (auto simp: remove_unneeded_cols_store_def new_object_def nth_append Let_def
      split: sum.splits)

lemma extract_weapon_classes_store_frame:
  assumes "df < length h"
  shows "fst (extract_weapon_classes_store h df) ! df = h ! df
         \<and> (\<forall>r. snd (extract_weapon_classes_store h df) = Inr r \<longrightarrow>
               r = length h \<and> r < length (fst (extract_weapon_classes_store h df)))"
  using assms
  by (auto simp: extract_weapon_classes_store_def new_object_def nth_append Let_def
      split: sum.splits)

lemma return_new_returns: "returns h (return_new h v) v"
  by (auto simp: returns_def return_new_def new_object_def split: sum.splits)

lemma remove_unneeded_cols_store_returns:
  "df < length h \<Longrightarrow>
     returns h (remove_unneeded_cols_store h df cols) (remove_unneeded_cols (h ! df) cols)"
  by (auto simp: returns_def remove_unneeded_cols_store_def remove_unneeded_cols_def
      new_object_def nth_append Let_def split: sum.splits)

lemma extract_weapon_classes_store_returns:
  "df < length h \<Longrightarrow>
     returns h (extract_weapon_classes_store h df) (extract_weapon_classes (h ! df))"
  by (auto simp: returns_def extract_weapon_classes_store_def extract_weapon_classes_def
      bind_error_def new_object_def nth_append Let_def split: sum.splits)

text \<open>
  Claim C6. No operation mutates its input table: for a table \<open>df\<close> of the store and each
  of the seven operations, the object \<open>df\<close> is after the call what it was before, and
  when the operation returns a table it is a new object, distinct from \<open>df\<close> and from
  every object that existed before the call.
\<close>

theorem operations_leave_input_unchanged:
  assumes "df < length h"
  shows "\<forall>res \<in> {remove_unneeded_cols_store h df cols,
                 filter_by_team_store h df team,
                 filter_by_side_store h df side,
                 filter_by_area_name_store h df area_names,
                 filter_by_polygon_store h df polygon_coordinates z_bound,
                 extract_weapon_classes_store h df,
                 get_first_row_of_each_round_store h df}.
           fst res ! df = h ! df
           \<and> (\<forall>r. snd res = Inr r \<longrightarrow> r \<noteq> df \<and> r = length h \<and> r < length (fst res))"
proof -
  have ne: "r \<noteq> df" if "r = length h" for r
    using assms that by simp
  show ?thesis
    unfolding filter_by_team_store_def filter_by_side_store_def
      filter_by_area_name_store_def filter_by_polygon_store_def
      get_first_row_of_each_round_store_def
    using return_new_frame [OF assms] remove_unneeded_cols_store_frame [OF assms]
      extract_weapon_classes_store_frame [OF assms] ne
    by blast
qed

theorem operations_leave_input_unchanged_witness:
  "0 < length [sample_table]
   \<and> fst (remove_unneeded_cols_store [sample_table] 0 [''team'']) ! 0 = sample_table
   \<and> snd (remove_unneeded_cols_store [sample_table] 0 [''team'']) = Inr 1
   \<and> fst (filter_by_team_store [sample_table] 0 ''A'') ! 0 = sample_table
   \<and> fst (extract_weapon_classes_store [sample_table] 0) ! 0 = sample_table
   \<and> fst (get_first_row_of_each_round_store [sample_table] 0) ! 0 = sample_table"
proof -
  have "snd (remove_unneeded_cols_store [sample_table] 0 [''team'']) = Inr 1"
    by (simp add: remove_unneeded_cols_store_def new_object_def drop_columns_def sample_defs)
  then show ?thesis
    using operations_leave_input_unchanged
      [of 0 "[sample_table]" "[''team'']" "''A''" "''T''" "[]" square "(0, 10)"]
    by simp
qed

section \<open>First row of each run of a round number\<close>

text \<open>The rows the loop appends: each row is compared with the round number of the row
  before it, the first row with the initial \<open>None\<close>.\<close>

lemma first_round_rows_loop_eq:
  assumes "''round_num'' \<in> set (columns df)"
  shows "first_round_rows_loop df rs cur acc =
           Inr (acc @ map snd (filter (\<lambda>(prev, (l, row)). py_ne (cell (columns df) row ''round_num'') prev)
                                 (zip (cur # map (\<lambda>(l, row). cell (columns df) row ''round_num'') rs) rs)))"
proof (induction rs arbitrary: cur acc)
  case Nil
  show ?case by simp
next
  case (Cons x rs)
  obtain l row where x: "x = (l, row)" by (cases x)
  show ?case
  proof (cases "py_ne (cell (columns df) row ''round_num'') cur")
    case True
    then show ?thesis
      using assms Cons.IH by (simp add: x row_getitem_def)
  next
    case False
    then have "cell (columns df) row ''round_num'' = cur"
      by (simp add: py_ne_def py_eq_def)
    with False show ?thesis
      using assms Cons.IH [of cur acc] by (simp add: x row_getitem_def)
  qed
qed

lemma first_round_rows_loop_KeyError:
  "''round_num'' \<notin> set (columns df) \<Longrightarrow> rs \<noteq> [] \<Longrightarrow>
     first_round_rows_loop df rs cur acc = Inl (KeyError ''round_num'')"
  by (cases rs) (auto simp: row_getitem_def)



lemma run_starts_adjacent:
  fixes f :: "'a \<Rightarrow> val"
  defines "starts \<equiv> \<lambda>cur rs. map snd (filter (\<lambda>(prev, x). py_ne (f x) prev) (zip (cur # map f rs) rs))"
  shows "successively (\<lambda>a b. py_ne (f b) (f a)) (starts cur rs)
         \<and> (starts cur rs \<noteq> [] \<longrightarrow> py_ne (f (hd (starts cur rs))) cur)"
proof (induction rs arbitrary: cur)
  case Nil
  show ?case by (simp add: starts_def)
next
  case (Cons x rs)
  show ?case
  proof (cases "py_ne (f x) cur")
    case True
    then have "starts cur (x # rs) = x # starts (f x) rs"
      by (simp add: starts_def)
    with True Cons.IH [of "f x"] show ?thesis
      by (auto simp: successively_Cons)
  next
    case False
    then have "f x = cur"
      by (simp add: py_ne_def py_eq_def)
    with False have "starts cur (x # rs) = starts cur rs"
      by (simp add: starts_def)
    with Cons.IH [of cur] show ?thesis
      by simp
  qed
qed

text \<open>
  Claim C10. In the table returned by \<open>get_first_row_of_each_round\<close>, the \<open>round_num\<close> of
  every row differs (Python's \<open>!=\<close>) from the \<open>round_num\<close> of the row before it.
\<close>

theorem emitted_rows_differ_from_predecessor:
  assumes "get_first_row_of_each_round df = Inr t"
  shows "successively
           (\<lambda>a b. py_ne (cell (columns t) (snd b) ''round_num'')
                         (cell (columns t) (snd a) ''round_num'')) (rows t)"
proof (cases "rows t = []")
  case True
  then show ?thesis by simp
next
  case False
  have ne: "rows df \<noteq> []"
  proof
    assume "rows df = []"
    with assms have "rows t = []"
      by (auto simp: get_first_row_of_each_round_def bind_error_def DataFrame_def)
    with False show False ..
  qed
  have col: "''round_num'' \<in> set (columns df)"
  proof (rule ccontr)
    assume "''round_num'' \<notin> set (columns df)"
    from first_round_rows_loop_KeyError [OF this ne] assms show False
      by (simp add: get_first_row_of_each_round_def bind_error_def)
  qed
  let ?f = "\<lambda>x. cell (columns df) (snd x) ''round_num''"
  let ?out = "map snd (filter (\<lambda>(prev, x). py_ne (?f x) prev) (zip (VNone # map ?f (rows df)) (rows df)))"
  have t: "t = DataFrame (columns df) ?out"
    using first_round_rows_loop_eq [OF col, of "rows df" VNone "[]"] assms
    by (simp add: get_first_row_of_each_round_def bind_error_def case_prod_unfold)
  with False have "columns t = columns df" and "rows t = ?out"
    by (simp_all add: DataFrame_def)
  with run_starts_adjacent [of ?f VNone "rows df"] show ?thesis
    by simp
qed

theorem emitted_rows_differ_from_predecessor_witness:
  "get_first_row_of_each_round sample_table
     = Inr (sample_table\<lparr>rows := [sample_rows ! 0, sample_rows ! 2, sample_rows ! 4]\<rparr>)
   \<and> successively
        (\<lambda>a b. py_ne (cell sample_columns (snd b) ''round_num'')
                      (cell sample_columns (snd a) ''round_num''))
        [sample_rows ! 0, sample_rows ! 2, sample_rows ! 4]"
proof -
  have a: "get_first_row_of_each_round sample_table
     = Inr (sample_table\<lparr>rows := [sample_rows ! 0, sample_rows ! 2, sample_rows ! 4]\<rparr>)"
    by (simp add: sample_defs get_first_row_of_each_round_def bind_error_def DataFrame_def
        row_getitem_def cell_def py_ne_def py_eq_def)
  have b: "columns (sample_table\<lparr>rows := [sample_rows ! 0, sample_rows ! 2, sample_rows ! 4]\<rparr>)
       = sample_columns"
    by (simp add: sample_table_def)
  show ?thesis
    using emitted_rows_differ_from_predecessor [OF a] a
    by (simp add: b)
qed

section \<open>A missing weapon class fails the extraction\<close>

lemma map_error_fails:
  "x \<in> set xs \<Longrightarrow> f x = Inl e \<Longrightarrow> \<exists>e'. map_error f xs = Inl e'"
proof (induction xs)
  case Nil
  then show ?case by simp
next
  case (Cons y ys)
  show ?case
  proof (cases "f y")
    case (Inl e1)
    then show ?thesis by simp
  next
    case (Inr v)
    with Cons.prems have "x \<in> set ys" by auto
    from Cons.IH [OF this Cons.prems(2)] obtain e' where "map_error f ys = Inl e'" ..
    with Inr show ?thesis by simp
  qed
qed

lemma weapon_class_list_missing:
  assumes "VDict d \<in> set items" "map_of d ''weapon_class'' = None"
  shows "\<exists>e. weapon_class_list (VList items) = Inl e"
  using map_error_fails [of "VDict d" items "\<lambda>item. item_getitem item ''weapon_class''"] assms
  by (simp add: weapon_class_list_def bind_error_def)

lemma weapon_classes_loop_fails:
  assumes "(l, row) \<in> set rs"
    and "row_getitem df row ''inventory'' = Inr inventory"
    and "inventory \<noteq> VNone"
    and "weapon_class_list inventory = Inl e0"
  shows "\<exists>e. weapon_classes_loop df rs acc = Inl e"
  using assms(1)
proof (induction rs arbitrary: acc)
  case Nil
  then show ?case by simp
next
  case (Cons x rs)
  obtain l' row' where x: "x = (l', row')" by (cases x)
  show ?case
  proof (cases "x = (l, row)")
    case True
    then have "weapon_classes_loop df (x # rs) acc = Inl e0"
      using assms(2,3,4) by simp
    then show ?thesis ..
  next
    case False
    with Cons.prems have "(l, row) \<in> set rs" by simp
    then have IH: "\<exists>e. weapon_classes_loop df rs acc' = Inl e" for acc'
      by (rule Cons.IH)
    show ?thesis
    proof (cases "row_getitem df row' ''inventory''")
      case (Inl e)
      then show ?thesis by (simp add: x)
    next
      case (Inr inventory')
      show ?thesis
      proof (cases "inventory' = VNone")
        case True
        with Inr IH [of "acc @ [VList []]"] show ?thesis by (simp add: x)
      next
        case False
        show ?thesis
        proof (cases "weapon_class_list inventory'")
          case (Inl e)
          with Inr False show ?thesis by (simp add: x)
        next
          case wcs: (Inr wcs)
          with Inr False IH [of "acc @ [VList wcs]"] show ?thesis by (simp add: x)
        qed
      qed
    qed
  qed
qed


lemma item_dicts_error:
  "map_error (\<lambda>item. item_getitem item ''weapon_class'') items = Inl e \<Longrightarrow>
   list_all (\<lambda>item. case item of VDict d \<Rightarrow> True | _ \<Rightarrow> False) items \<Longrightarrow>
   e = KeyError ''weapon_class''"
proof (induction items)
  case Nil
  then show ?case by simp
next
  case (Cons item items)
  from Cons.prems(2) obtain d where item: "item = VDict d"
    by (cases item) simp_all
  show ?case
  proof (cases "map_of d ''weapon_class''")
    case None
    with Cons.prems(1) show ?thesis by (simp add: item)
  next
    case (Some v)
    with Cons.prems have "map_error (\<lambda>item. item_getitem item ''weapon_class'') items = Inl e"
      by (simp add: item split: sum.splits)
    with Cons.IH Cons.prems(2) show ?thesis by simp
  qed
qed

lemma item_list_error:
  assumes "is_item_list inventory" "inventory \<noteq> VNone" "weapon_class_list inventory = Inl e"
  shows "e = KeyError ''weapon_class''"
proof -
  from assms(1,2) obtain items where inventory: "inventory = VList items"
    by (cases inventory) simp_all
  with assms item_dicts_error [of items e] show ?thesis
    by (simp add: weapon_class_list_def bind_error_def)
qed

lemma weapon_classes_loop_error:
  assumes "''inventory'' \<in> set (columns df)"
    and "\<forall>(l, row) \<in> set rs. is_item_list (cell (columns df) row ''inventory'')"
    and "weapon_classes_loop df rs acc = Inl e"
  shows "e = KeyError ''weapon_class''"
  using assms(2,3)
proof (induction rs arbitrary: acc)
  case Nil
  then show ?case by simp
next
  case (Cons x rs)
  obtain l row where x: "x = (l, row)" by (cases x)
  let ?inventory = "cell (columns df) row ''inventory''"
  from Cons.prems(1) have typed: "is_item_list ?inventory"
    and rest: "\<forall>(l, row) \<in> set rs. is_item_list (cell (columns df) row ''inventory'')"
    by (simp_all add: x)
  have get: "row_getitem df row ''inventory'' = Inr ?inventory"
    using assms(1) by (simp add: row_getitem_def)
  show ?case
  proof (cases "?inventory = VNone")
    case True
    with Cons.prems(2) get have "weapon_classes_loop df rs (acc @ [VList []]) = Inl e"
      by (simp add: x)
    then show ?thesis by (rule Cons.IH [OF rest])
  next
    case False
    show ?thesis
    proof (cases "weapon_class_list ?inventory")
      case (Inl e')
      with Cons.prems(2) get False have "e' = e" by (simp add: x)
      with item_list_error [OF typed False] Inl show ?thesis by simp
    next
      case (Inr wcs)
      with Cons.prems(2) get False
      have "weapon_classes_loop df rs (acc @ [VList wcs]) = Inl e"
        by (simp add: x)
      then show ?thesis by (rule Cons.IH [OF rest])
    qed
  qed
qed

text \<open>
  Claim C5. When some inventory item of some row lacks the field \<open>weapon_class\<close>,
  \<open>extract_weapon_classes\<close> raises and returns no table: one bad row fails the whole
  call, no row is skipped. On a table whose inventories are all null or lists of item
  records the exception is \<open>KeyError('weapon_class')\<close>, Python's report of the missing
  field.
\<close>

theorem extract_weapon_classes_missing_weapon_class:
  assumes "(l, row) \<in> set (rows df)"
    and "row_getitem df row ''inventory'' = Inr (VList items)"
    and "VDict d \<in> set items"
    and "map_of d ''weapon_class'' = None"
  shows "\<exists>e. extract_weapon_classes df = Inl e
           \<and> ((\<forall>(l, row) \<in> set (rows df). is_item_list (cell (columns df) row ''inventory''))
                \<longrightarrow> e = KeyError ''weapon_class'')"
proof -
  from weapon_class_list_missing [OF assms(3,4)]
  obtain e0 where "weapon_class_list (VList items) = Inl e0" ..
  from weapon_classes_loop_fails [OF assms(1,2) _ this]
  obtain e where e: "weapon_classes_loop df (rows df) [] = Inl e" by blast
  have col: "''inventory'' \<in> set (columns df)"
    using assms(2) by (simp add: row_getitem_def split: if_splits)
  have "extract_weapon_classes df = Inl e"
    using e by (simp add: extract_weapon_classes_def bind_error_def)
  moreover have "e = KeyError ''weapon_class''"
    if "\<forall>(l, row) \<in> set (rows df). is_item_list (cell (columns df) row ''inventory'')"
    using weapon_classes_loop_error [OF col that e] .
  ultimately show ?thesis by blast
qed

theorem extract_weapon_classes_missing_weapon_class_witness:
  "extract_weapon_classes incomplete_table = Inl (KeyError ''weapon_class'')"
proof -
  let ?row = "[VStr ''B'', VList [VDict [(''weapon_class'', VStr ''SMG'')],
                                   VDict [(''ammo'', VNum 30)]]]"
  have 1: "(1, ?row) \<in> set (rows incomplete_table)"
    by (simp add: incomplete_table_def)
  have 2: "row_getitem incomplete_table ?row ''inventory''
             = Inr (VList [VDict [(''weapon_class'', VStr ''SMG'')], VDict [(''ammo'', VNum 30)]])"
    by (simp add: incomplete_table_def row_getitem_def cell_def)
  have 3: "VDict [(''ammo'', VNum 30)]
             \<in> set [VDict [(''weapon_class'', VStr ''SMG'')], VDict [(''ammo'', VNum 30)]]"
    by simp
  have 4: "map_of [(''ammo'', VNum 30)] ''weapon_class'' = None"
    by simp
  have 5: "\<forall>(l, row) \<in> set (rows incomplete_table).
             is_item_list (cell (columns incomplete_table) row ''inventory'')"
    by (simp add: incomplete_table_def cell_def)
  from extract_weapon_classes_missing_weapon_class [OF 1 2 3 4] 5 show ?thesis
    by blast
qed

section \<open>The polygon filter: interior, boundary and argument checks\<close>

lemma map_error_Inr:
  "map_error f xs = Inr ys \<Longrightarrow> ys = map (\<lambda>x. f x = Inr True) xs"
proof (induction xs arbitrary: ys)
  case Nil
  then show ?case by simp
next
  case (Cons x xs)
  from Cons.prems obtain b bs where b: "f x = Inr b" and bs: "map_error f xs = Inr bs"
    and ys: "ys = b # bs"
    by (auto split: sum.splits)
  from Cons.IH [OF bs] b ys show ?case by simp
qed

lemma map_error_Inl:
  "map_error f xs = Inl e \<Longrightarrow> \<exists>x \<in> set xs. f x = Inl e"
proof (induction xs)
  case Nil
  then show ?case by simp
next
  case (Cons x xs)
  show ?case
  proof (cases "f x")
    case (Inl e1)
    with Cons.prems show ?thesis by simp
  next
    case (Inr b)
    with Cons.prems have "map_error f xs = Inl e"
      by (simp split: sum.splits)
    from Cons.IH [OF this] show ?thesis by simp
  qed
qed

lemma map_error_total:
  "(\<And>x. x \<in> set xs \<Longrightarrow> \<exists>b. f x = Inr b) \<Longrightarrow> \<exists>ys. map_error f xs = Inr ys"
proof (induction xs)
  case Nil
  show ?case by simp
next
  case (Cons x xs)
  from Cons.prems [of x] obtain b where b: "f x = Inr b" by auto
  from Cons.IH Cons.prems obtain ys where "map_error f xs = Inr ys" by auto
  with b show ?case by simp
qed

lemma filter_by_polygon_eq:
  assumes "filter_by_polygon df pc zb = Inr t"
  shows "\<exists>polygon. Polygon pc = Inr polygon
           \<and> t = df\<lparr>rows := filter (row_kept df polygon zb) (rows df)\<rparr>"
proof -
  from assms obtain polygon zs in_z in_poly where p: "Polygon pc = Inr polygon"
    and zs: "getitem_column df ''z'' = Inr zs"
    and in_z: "series_between zs (fst zb) (snd zb) = Inr in_z"
    and in_poly: "map_error (\<lambda>(l, row). row_in_polygon df polygon row) (rows df) = Inr in_poly"
    and t: "t = getitem_mask df (map (\<lambda>(a, b). a \<and> b) (zip in_z in_poly))"
    by (auto simp: filter_by_polygon_def bind_error_def split: sum.splits)
  from zs have zs': "zs = map (\<lambda>(l, r). cell (columns df) r ''z'') (rows df)"
    by (simp add: getitem_column_def split: if_splits)
  have 1: "in_z = map (\<lambda>x. between_cell (fst zb) (snd zb) (cell (columns df) (snd x) ''z'') = Inr True) (rows df)"
    using map_error_Inr [OF in_z [unfolded series_between_def]]
    by (simp add: zs' case_prod_unfold)
  have 2: "in_poly = map (\<lambda>x. row_in_polygon df polygon (snd x) = Inr True) (rows df)"
    using map_error_Inr [OF in_poly] by (simp add: case_prod_unfold)
  have "map (\<lambda>(a, b). a \<and> b) (zip in_z in_poly) = map (row_kept df polygon zb) (rows df)"
    unfolding 1 2 by (simp add: zip_map_map row_kept_def zip_same_conv_map)
  with t have "t = df\<lparr>rows := filter (row_kept df polygon zb) (rows df)\<rparr>"
    by (simp add: getitem_mask_map)
  with p show ?thesis by simp
qed

lemma filter_by_polygon_succeeds:
  assumes p: "Polygon pc = Inr polygon"
    and cols: "''x'' \<in> set (columns df)" "''y'' \<in> set (columns df)" "''z'' \<in> set (columns df)"
    and typed: "\<forall>(l, row) \<in> set (rows df).
                  is_number (cell (columns df) row ''x'') \<and> is_number (cell (columns df) row ''y'')
                  \<and> is_number (cell (columns df) row ''z'')"
  shows "\<exists>t. filter_by_polygon df pc zb = Inr t"
proof -
  have num: "\<exists>b. coordinate v = Inr b" if "is_number v" for v
    using that by (cases v) simp_all
  have btw: "\<exists>b. between_cell lo hi v = Inr b" if "is_number v" for v lo hi
    using that by (cases v) auto
  have "\<exists>bs. map_error (between_cell (fst zb) (snd zb))
                (map (\<lambda>(l, r). cell (columns df) r ''z'') (rows df)) = Inr bs"
    by (rule map_error_total) (use typed btw in auto)
  then obtain in_z where in_z: "series_between (map (\<lambda>(l, r). cell (columns df) r ''z'') (rows df))
      (fst zb) (snd zb) = Inr in_z"
    by (auto simp: series_between_def)
  have "\<exists>b. row_in_polygon df polygon row = Inr b" if "(l, row) \<in> set (rows df)" for l row
  proof -
    from typed that have "is_number (cell (columns df) row ''x'')"
      "is_number (cell (columns df) row ''y'')" by auto
    from num [OF this(1)] num [OF this(2)] show ?thesis
      using cols by (auto simp: row_in_polygon_def row_getitem_def bind_error_def Point_def)
  qed
  then have "\<exists>bs. map_error (\<lambda>(l, row). row_in_polygon df polygon row) (rows df) = Inr bs"
    by (intro map_error_total) auto
  then obtain in_poly where
    "map_error (\<lambda>(l, row). row_in_polygon df polygon row) (rows df) = Inr in_poly" ..
  with p in_z cols show ?thesis
    by (simp add: filter_by_polygon_def bind_error_def getitem_column_def)
qed


lemma on_boundary_not_interior: "on_boundary ring p \<Longrightarrow> \<not> in_interior ring p"
  by (simp add: in_interior_def)

lemma row_kept_numeric:
  assumes "''x'' \<in> set (columns df)" "''y'' \<in> set (columns df)"
    and "cell (columns df) row ''x'' = VNum x" "cell (columns df) row ''y'' = VNum y"
    and "cell (columns df) row ''z'' = VNum z"
  shows "row_kept df polygon (zmin, zmax) (l, row)
           \<longleftrightarrow> zmin \<le> z \<and> z \<le> zmax \<and> in_interior polygon (x, y)"
  using assms
  by (simp add: row_kept_def row_in_polygon_def row_getitem_def bind_error_def Point_def
      contains_def)

lemma square_interior:
  "in_interior [(0, 0), (0, 2), (2, 2), (2, 0), (0, 0)] (x, y)
     \<longleftrightarrow> 0 < x \<and> x < 2 \<and> 0 < y \<and> y < 2"
  apply (simp add: in_interior_def on_boundary_def ring_edges_def on_segment_def ray_crosses_def)
  apply (auto simp: min_def max_def split: if_splits)
  done

lemma exact_positions_numeric:
  assumes "exact_positions df"
  shows "''x'' \<in> set (columns df)" "''y'' \<in> set (columns df)" "''z'' \<in> set (columns df)"
    and "\<forall>(l, row) \<in> set (rows df).
           is_number (cell (columns df) row ''x'') \<and> is_number (cell (columns df) row ''y'')
           \<and> is_number (cell (columns df) row ''z'')"
proof -
  have c: "is_number v" if "is_exact_coordinate v" for v
    using that by (cases v) simp_all
  have n: "is_number v" if "is_exact_number v" for v
    using that by (cases v) simp_all
  from assms show "''x'' \<in> set (columns df)" "''y'' \<in> set (columns df)"
    "''z'' \<in> set (columns df)"
    by (simp_all add: exact_positions_def)
  from assms show "\<forall>(l, row) \<in> set (rows df).
           is_number (cell (columns df) row ''x'') \<and> is_number (cell (columns df) row ''y'')
           \<and> is_number (cell (columns df) row ''z'')"
    using c n by (auto simp: exact_positions_def list_all_iff)
qed

text \<open>
  Claim C1, as the code has it. Take a valid polygon with exact vertices, a bound with
  exact ends, and a table whose \<open>x\<close>, \<open>y\<close>, \<open>z\<close> cells are exact numbers. Then
  \<open>filter_by_polygon\<close> returns a table, and a row with \<open>z\<close> within \<open>[zmin, zmax]\<close>
  inclusive is in it exactly when its point lies in the interior of the polygon
  (\<open>polygon.contains\<close>): a row whose point lies on an edge of the polygon is left out.
\<close>

theorem filter_by_polygon_keeps_interior_rows:
  assumes "Polygon polygon_coordinates = Inr polygon"
    and "list_all (\<lambda>(a, b). exact_coordinate a \<and> exact_coordinate b) polygon_coordinates"
    and "exact_number zmin" "exact_number zmax"
    and "exact_positions df"
    and "(l, row) \<in> set (rows df)"
    and "cell (columns df) row ''x'' = VNum x" "cell (columns df) row ''y'' = VNum y"
    and "cell (columns df) row ''z'' = VNum z"
    and "zmin \<le> z" "z \<le> zmax"
  shows "\<exists>t. filter_by_polygon df polygon_coordinates (zmin, zmax) = Inr t
           \<and> ((l, row) \<in> set (rows t) \<longleftrightarrow> in_interior polygon (x, y))
           \<and> (on_boundary polygon (x, y) \<longrightarrow> (l, row) \<notin> set (rows t))"
proof -
  note cols = exact_positions_numeric(1-3) [OF assms(5)]
  from filter_by_polygon_succeeds [OF assms(1) exact_positions_numeric [OF assms(5)]]
  obtain t where t: "filter_by_polygon df polygon_coordinates (zmin, zmax) = Inr t" ..
  from filter_by_polygon_eq [OF t] assms(1)
  have "t = df\<lparr>rows := filter (row_kept df polygon (zmin, zmax)) (rows df)\<rparr>"
    by simp
  then have "(l, row) \<in> set (rows t) \<longleftrightarrow> row_kept df polygon (zmin, zmax) (l, row)"
    using assms(6) by simp
  also have "\<dots> \<longleftrightarrow> in_interior polygon (x, y)"
    using row_kept_numeric [OF cols(1,2) assms(7,8,9)] assms(10,11) by simp
  finally have "(l, row) \<in> set (rows t) \<longleftrightarrow> in_interior polygon (x, y)" .
  with t on_boundary_not_interior [of polygon "(x, y)"] show ?thesis
    by blast
qed

lemma sample_exact: "exact_positions sample_table"
  by (simp add: exact_positions_def sample_defs cell_def exact_number_def
      exact_coordinate_def)

lemma square_exact: "list_all (\<lambda>(a, b). exact_coordinate a \<and> exact_coordinate b) square"
  by (simp add: square_def exact_coordinate_def)

lemma square_ring: "Polygon square = Inr [(0, 0), (0, 2), (2, 2), (2, 0), (0, 0)]"
  by (simp add: square_def Polygon_def)

theorem filter_by_polygon_keeps_interior_rows_witness:
  "in_interior [(0, 0), (0, 2), (2, 2), (2, 0), (0, 0)] (1, 1)
   \<and> (\<exists>t. filter_by_polygon sample_table square (0, 10) = Inr t
          \<and> sample_rows ! 0 \<in> set (rows t))"
proof -
  let ?row = "snd (sample_rows ! 0)"
  have r: "sample_rows ! 0 = (0, ?row)"
    by (simp add: sample_rows_def)
  have 1: "(0, ?row) \<in> set (rows sample_table)"
    by (simp add: sample_defs)
  have 2: "exact_number 0" "exact_number 10"
    by (simp_all add: exact_number_def)
  have 3: "cell (columns sample_table) ?row ''x'' = VNum 1"
    "cell (columns sample_table) ?row ''y'' = VNum 1"
    "cell (columns sample_table) ?row ''z'' = VNum 5"
    by (simp_all add: sample_defs cell_def)
  have 4: "(0::rat) \<le> 5" "(5::rat) \<le> 10"
    by simp_all
  have 5: "in_interior [(0, 0), (0, 2), (2, 2), (2, 0), (0, 0)] (1, 1)"
    by (simp add: in_interior_def on_boundary_def ring_edges_def on_segment_def ray_crosses_def)
  from filter_by_polygon_keeps_interior_rows [OF square_ring square_exact 2 sample_exact 1 3 4] 5
  obtain t where "filter_by_polygon sample_table square (0, 10) = Inr t"
    and "(0, ?row) \<in> set (rows t)"
    by blast
  with 5 r show ?thesis by auto
qed

text \<open>
  The claim as stated fails: the row labelled 1 of the sample table has \<open>z = 5\<close> within
  \<open>[0, 10]\<close> and its point \<open>(0, 1)\<close> on the edge from \<open>(0, 0)\<close> to \<open>(0, 2)\<close> of the
  square, and the result does not contain it.
\<close>

theorem boundary_point_excluded:
  "on_segment (0, 1) (0, 0) (0, 2)
   \<and> Polygon square = Inr [(0, 0), (0, 2), (2, 2), (2, 0), (0, 0)]
   \<and> on_boundary [(0, 0), (0, 2), (2, 2), (2, 0), (0, 0)] (0, 1)
   \<and> sample_rows ! 1 \<in> set (rows sample_table)
   \<and> cell (columns sample_table) (snd (sample_rows ! 1)) ''x'' = VNum 0
   \<and> cell (columns sample_table) (snd (sample_rows ! 1)) ''y'' = VNum 1
   \<and> cell (columns sample_table) (snd (sample_rows ! 1)) ''z'' = VNum 5
   \<and> filter_by_polygon sample_table square (0, 10)
       = Inr (sample_table\<lparr>rows := [sample_rows ! 0, sample_rows ! 4]\<rparr>)
   \<and> sample_rows ! 1 \<notin> set [sample_rows ! 0, sample_rows ! 4]"
proof -
  have "filter_by_polygon sample_table square (0, 10)
      = Inr (sample_table\<lparr>rows := [sample_rows ! 0, sample_rows ! 4]\<rparr>)"
    by (simp add: sample_defs filter_by_polygon_def Polygon_def getitem_column_def
        bind_error_def series_between_def getitem_mask_def cell_def row_in_polygon_def
        row_getitem_def Point_def contains_def in_interior_def on_boundary_def
        ring_edges_def on_segment_def ray_crosses_def)
  moreover have "on_segment (0, 1) (0, 0) (0, 2)"
    by (simp add: on_segment_def)
  moreover have "on_boundary [(0, 0), (0, 2), (2, 2), (2, 0), (0, 0)] (0, 1)"
    by (simp add: on_boundary_def ring_edges_def on_segment_def)
  moreover have "sample_rows ! 1 \<in> set (rows sample_table)"
    "sample_rows ! 1 \<notin> set [sample_rows ! 0, sample_rows ! 4]"
    "cell (columns sample_table) (snd (sample_rows ! 1)) ''x'' = VNum 0"
    "cell (columns sample_table) (snd (sample_rows ! 1)) ''y'' = VNum 1"
    "cell (columns sample_table) (snd (sample_rows ! 1)) ''z'' = VNum 5"
    by (simp_all add: sample_defs cell_def)
  ultimately show ?thesis
    using square_ring by simp
qed









section \<open>Weapon classes of a filtered table\<close>

text \<open>On a table whose labels are \<open>0, 1, ..., n - 1\<close>, as it is read from a file, the
  series aligns with the rows: every row keeps its label and receives the list computed
  from its own inventory.\<close>

lemma weapon_classes_loop_Inr:
  "weapon_classes_loop df rs acc = Inr wcs \<Longrightarrow>
     \<exists>vs. wcs = acc @ vs \<and> list_all2 (row_weapon_classes df) rs vs"
proof (induction rs arbitrary: acc)
  case Nil
  then show ?case by simp
next
  case (Cons x rs)
  obtain l row where x: "x = (l, row)" by (cases x)
  from Cons.prems obtain inventory where inv: "row_getitem df row ''inventory'' = Inr inventory"
    by (auto simp: x split: sum.splits)
  show ?case
  proof (cases "inventory = VNone")
    case True
    with Cons.prems inv have "weapon_classes_loop df rs (acc @ [VList []]) = Inr wcs"
      by (simp add: x)
    from Cons.IH [OF this] obtain vs where "wcs = (acc @ [VList []]) @ vs"
      and "list_all2 (row_weapon_classes df) rs vs" by blast
    with inv True have "wcs = acc @ (VList [] # vs)
        \<and> list_all2 (row_weapon_classes df) (x # rs) (VList [] # vs)"
      by (simp add: x row_weapon_classes_def)
    then show ?thesis by blast
  next
    case False
    with Cons.prems inv obtain ws where ws: "weapon_class_list inventory = Inr ws"
      and "weapon_classes_loop df rs (acc @ [VList ws]) = Inr wcs"
      by (auto simp: x split: sum.splits)
    from Cons.IH [OF this(2)] obtain vs where "wcs = (acc @ [VList ws]) @ vs"
      and "list_all2 (row_weapon_classes df) rs vs" by blast
    with inv False ws have "wcs = acc @ (VList ws # vs)
        \<and> list_all2 (row_weapon_classes df) (x # rs) (VList ws # vs)"
      by (simp add: x row_weapon_classes_def)
    then show ?thesis by blast
  qed
qed

lemma series_reindex_range: "series_reindex s (map int [0..<length s]) = s"
proof -
  have "series_reindex s (map int [0..<length s]) = map (\<lambda>i. s ! i) [0..<length s]"
    by (simp add: series_reindex_def)
  then show ?thesis by (simp add: map_nth)
qed

lemma extract_weapon_classes_loaded_table:
  assumes "map fst (rows df) = map int [0..<length (rows df)]"
    and "extract_weapon_classes df = Inr t"
  shows "\<exists>vs. list_all2 (row_weapon_classes df) (rows df) vs
           \<and> map fst (rows t) = map fst (rows df)
           \<and> (''weapon_classes'' \<notin> set (columns df) \<longrightarrow>
                columns t = columns df @ [''weapon_classes'']
                \<and> map snd (rows t) = map (\<lambda>((l, r), v). r @ [v]) (zip (rows df) vs))"
proof -
  from assms(2) obtain wcs where wcs: "weapon_classes_loop df (rows df) [] = Inr wcs"
    and t: "t = setitem df ''weapon_classes'' wcs"
    by (auto simp: extract_weapon_classes_def bind_error_def split: sum.splits)
  from weapon_classes_loop_Inr [OF wcs]
  have all: "list_all2 (row_weapon_classes df) (rows df) wcs" by simp
  then have len: "length wcs = length (rows df)"
    by (simp add: list_all2_lengthD)
  have re: "series_reindex wcs (map fst (rows df)) = wcs"
    using series_reindex_range [of wcs] by (simp add: assms(1) len)
  have "map (\<lambda>x. fst (fst x)) (zip (rows df) wcs) = map fst (map fst (zip (rows df) wcs))"
    by (simp add: o_def)
  also have "\<dots> = map fst (rows df)"
    using len by simp
  finally have "map fst (rows t) = map fst (rows df)"
    unfolding t setitem_def Let_def re
    by (simp add: case_prod_unfold o_def)
  moreover have "columns t = columns df @ [''weapon_classes'']
      \<and> map snd (rows t) = map (\<lambda>((l, r), v). r @ [v]) (zip (rows df) wcs)"
    if "''weapon_classes'' \<notin> set (columns df)"
    unfolding t setitem_def Let_def re using that
    by (simp add: case_prod_unfold)
  ultimately show ?thesis using all by blast
qed

text \<open>
  Claim C4 fails on the code. On the sample table as loaded (labels \<open>0..4\<close>) every row
  receives the weapon classes of its own inventory, and the empty list for the null
  inventory. On the table that \<open>filter_by_area_name\<close> returns for \<open>Mid\<close> and
  \<open>BombsiteA\<close> (rows labelled 2, 3, 4) the new column is aligned by label instead of by
  position: the row labelled 2, whose inventory holds an \<open>SMG\<close>, receives the classes of
  the row labelled 4, and the rows labelled 3 and 4 receive NaN.
\<close>

theorem weapon_classes_misaligned_after_filter:
  "weapon_classes_column (extract_weapon_classes sample_table)
     = Inr [(0, VList [VStr ''Rifle'', VStr ''Pistols'']), (1, VList []),
            (2, VList [VStr ''SMG'']), (3, VList []), (4, VList [VStr ''Grenade''])]
   \<and> filter_by_area_name sample_table [''Mid'', ''BombsiteA'']
     = Inr (sample_table\<lparr>rows := [sample_rows ! 2, sample_rows ! 3, sample_rows ! 4]\<rparr>)
   \<and> weapon_classes_column
       (extract_weapon_classes
          (sample_table\<lparr>rows := [sample_rows ! 2, sample_rows ! 3, sample_rows ! 4]\<rparr>))
     = Inr [(2, VList [VStr ''Grenade'']), (3, VNaN), (4, VNaN)]"
proof -
  have "weapon_classes_column (extract_weapon_classes sample_table)
     = Inr [(0, VList [VStr ''Rifle'', VStr ''Pistols'']), (1, VList []),
            (2, VList [VStr ''SMG'']), (3, VList []), (4, VList [VStr ''Grenade''])]"
    by (simp add: weapon_classes_column_def sample_defs extract_weapon_classes_def
        bind_error_def setitem_def series_reindex_def row_getitem_def cell_def
        weapon_class_list_def)
  moreover have "filter_by_area_name sample_table [''Mid'', ''BombsiteA'']
     = Inr (sample_table\<lparr>rows := [sample_rows ! 2, sample_rows ! 3, sample_rows ! 4]\<rparr>)"
    by (simp add: sample_defs filter_by_area_name_def getitem_column_def bind_error_def
        isin_def getitem_mask_def cell_def)
  moreover have "weapon_classes_column
       (extract_weapon_classes
          (sample_table\<lparr>rows := [sample_rows ! 2, sample_rows ! 3, sample_rows ! 4]\<rparr>))
     = Inr [(2, VList [VStr ''Grenade'']), (3, VNaN), (4, VNaN)]"
    by (simp add: weapon_classes_column_def sample_defs extract_weapon_classes_def
        bind_error_def setitem_def series_reindex_def row_getitem_def cell_def
        weapon_class_list_def)
  ultimately show ?thesis by simp
qed

end
